theory Spec2Isabelle
  imports Main "HOL-Library.Word" "HOL-Library.Multiset"
begin

unbundle bit_operations_syntax

section \<open>The lookup tables of LookupTables.cpp\<close>

text \<open>
  The sieve array stores one bit per integer coprime to 30. The eight bits of a byte stand
  for the offsets 7, 11, 13, 17, 19, 23, 29, 31 from the byte's base value, so that a
  64-bit word of the sieve spans 8 * 30 = 240 integers. \<open>bitValues\<close> is indexed by the
  number of trailing zeros of such a word; the count is 64 for the word 0, which is why the
  array has a 65th entry.
\<close>

type_synonym uint64_t = "64 word"

definition bitValues :: "uint64_t list" where
  "bitValues =
  [
   7, 11, 13, 17, 19, 23, 29, 31,
   37, 41, 43, 47, 49, 53, 59, 61,
   67, 71, 73, 77, 79, 83, 89, 91,
   97, 101, 103, 107, 109, 113, 119, 121,
   127, 131, 133, 137, 139, 143, 149, 151,
   157, 161, 163, 167, 169, 173, 179, 181,
   187, 191, 193, 197, 199, 203, 209, 211,
   217, 221, 223, 227, 229, 233, 239, 241,
   0
  ]"

text \<open>
  The same values in the order of the De Bruijn bit scan, which finds the first set bit of a
  64-bit word with integer operations only.
\<close>

definition bruijnBitValues :: "uint64_t list" where
  "bruijnBitValues =
  [
   7, 47, 11, 49, 67, 113, 13, 53,
   89, 71, 161, 101, 119, 187, 17, 233,
   59, 79, 91, 73, 133, 139, 163, 103,
   149, 121, 203, 169, 191, 217, 19, 239,
   43, 61, 109, 83, 157, 97, 181, 229,
   77, 131, 137, 143, 199, 167, 211, 41,
   107, 151, 179, 227, 127, 197, 209, 37,
   173, 223, 193, 31, 221, 29, 23, 241
  ]"

text \<open>
  The declarations of \<open>WheelInit\<close> and \<open>WheelElement\<close> (Wheel.hpp) are not part of the
  sources at hand, only the initialisers of the four tables are. The fields are therefore
  named by position. A \<open>WheelInit\<close> initialiser \<open>{ f, i }\<close> has the factor \<open>f\<close> that leads
  to the next multiple not divisible by the wheel's primes, and the wheel index \<open>i\<close> of that
  multiple. A \<open>WheelElement\<close> initialiser \<open>{ BITk, f, c, n }\<close> has the mask that clears
  bit \<open>k\<close> of a sieve byte, the factor \<open>f\<close> to the next multiple, the correction \<open>c\<close> of
  the byte index, and the wheel index \<open>n\<close> that follows. The fourth column is the only one
  whose values range over the indices of the table (up to 63 in \<open>wheel30\<close>, up to 383 in
  \<open>wheel210\<close>), which identifies it as the resulting wheel index. The field values all fit
  their C types, and no arithmetic is done inside the tables, so they are kept as natural
  numbers. The mask \<open>BITk\<close> is represented by the bit number \<open>k\<close>.
\<close>

datatype WheelInit = WheelInit (nextMultipleFactor: nat) (wheelIndex: nat)

datatype WheelElement =
  WheelElement (unsetBit: nat) (nextFactor: nat) (correct: nat) (nextIndex: nat)

abbreviation (input) BIT0 :: nat where "BIT0 \<equiv> 0"
abbreviation (input) BIT1 :: nat where "BIT1 \<equiv> 1"
abbreviation (input) BIT2 :: nat where "BIT2 \<equiv> 2"
abbreviation (input) BIT3 :: nat where "BIT3 \<equiv> 3"
abbreviation (input) BIT4 :: nat where "BIT4 \<equiv> 4"
abbreviation (input) BIT5 :: nat where "BIT5 \<equiv> 5"
abbreviation (input) BIT6 :: nat where "BIT6 \<equiv> 6"
abbreviation (input) BIT7 :: nat where "BIT7 \<equiv> 7"

text \<open>Used to find the next multiple (of a prime) that is not divisible by 2, 3 and 5.\<close>

definition wheel30Init :: "WheelInit list" where
  "wheel30Init =
  [
   WheelInit 1 0, WheelInit 0 0, WheelInit 5 1, WheelInit 4 1, WheelInit 3 1, WheelInit 2 1, WheelInit 1 1, WheelInit 0 1,
   WheelInit 3 2, WheelInit 2 2, WheelInit 1 2, WheelInit 0 2, WheelInit 1 3, WheelInit 0 3, WheelInit 3 4, WheelInit 2 4,
   WheelInit 1 4, WheelInit 0 4, WheelInit 1 5, WheelInit 0 5, WheelInit 3 6, WheelInit 2 6, WheelInit 1 6, WheelInit 0 6,
   WheelInit 5 7, WheelInit 4 7, WheelInit 3 7, WheelInit 2 7, WheelInit 1 7, WheelInit 0 7
  ]"

text \<open>Used to find the next multiple (of a prime) that is not divisible by 2, 3, 5 and 7.\<close>

definition wheel210Init :: "WheelInit list" where
  "wheel210Init =
  [
   WheelInit 1 0, WheelInit 0 0, WheelInit 9 1, WheelInit 8 1, WheelInit 7 1, WheelInit 6 1, WheelInit 5 1, WheelInit 4 1,
   WheelInit 3 1, WheelInit 2 1, WheelInit 1 1, WheelInit 0 1, WheelInit 1 2, WheelInit 0 2, WheelInit 3 3, WheelInit 2 3,
   WheelInit 1 3, WheelInit 0 3, WheelInit 1 4, WheelInit 0 4, WheelInit 3 5, WheelInit 2 5, WheelInit 1 5, WheelInit 0 5,
   WheelInit 5 6, WheelInit 4 6, WheelInit 3 6, WheelInit 2 6, WheelInit 1 6, WheelInit 0 6, WheelInit 1 7, WheelInit 0 7,
   WheelInit 5 8, WheelInit 4 8, WheelInit 3 8, WheelInit 2 8, WheelInit 1 8, WheelInit 0 8, WheelInit 3 9, WheelInit 2 9,
   WheelInit 1 9, WheelInit 0 9, WheelInit 1 10, WheelInit 0 10, WheelInit 3 11, WheelInit 2 11, WheelInit 1 11, WheelInit 0 11,
   WheelInit 5 12, WheelInit 4 12, WheelInit 3 12, WheelInit 2 12, WheelInit 1 12, WheelInit 0 12, WheelInit 5 13, WheelInit 4 13,
   WheelInit 3 13, WheelInit 2 13, WheelInit 1 13, WheelInit 0 13, WheelInit 1 14, WheelInit 0 14, WheelInit 5 15, WheelInit 4 15,
   WheelInit 3 15, WheelInit 2 15, WheelInit 1 15, WheelInit 0 15, WheelInit 3 16, WheelInit 2 16, WheelInit 1 16, WheelInit 0 16,
   WheelInit 1 17, WheelInit 0 17, WheelInit 5 18, WheelInit 4 18, WheelInit 3 18, WheelInit 2 18, WheelInit 1 18, WheelInit 0 18,
   WheelInit 3 19, WheelInit 2 19, WheelInit 1 19, WheelInit 0 19, WheelInit 5 20, WheelInit 4 20, WheelInit 3 20, WheelInit 2 20,
   WheelInit 1 20, WheelInit 0 20, WheelInit 7 21, WheelInit 6 21, WheelInit 5 21, WheelInit 4 21, WheelInit 3 21, WheelInit 2 21,
   WheelInit 1 21, WheelInit 0 21, WheelInit 3 22, WheelInit 2 22, WheelInit 1 22, WheelInit 0 22, WheelInit 1 23, WheelInit 0 23,
   WheelInit 3 24, WheelInit 2 24, WheelInit 1 24, WheelInit 0 24, WheelInit 1 25, WheelInit 0 25, WheelInit 3 26, WheelInit 2 26,
   WheelInit 1 26, WheelInit 0 26, WheelInit 7 27, WheelInit 6 27, WheelInit 5 27, WheelInit 4 27, WheelInit 3 27, WheelInit 2 27,
   WheelInit 1 27, WheelInit 0 27, WheelInit 5 28, WheelInit 4 28, WheelInit 3 28, WheelInit 2 28, WheelInit 1 28, WheelInit 0 28,
   WheelInit 3 29, WheelInit 2 29, WheelInit 1 29, WheelInit 0 29, WheelInit 5 30, WheelInit 4 30, WheelInit 3 30, WheelInit 2 30,
   WheelInit 1 30, WheelInit 0 30, WheelInit 1 31, WheelInit 0 31, WheelInit 3 32, WheelInit 2 32, WheelInit 1 32, WheelInit 0 32,
   WheelInit 5 33, WheelInit 4 33, WheelInit 3 33, WheelInit 2 33, WheelInit 1 33, WheelInit 0 33, WheelInit 1 34, WheelInit 0 34,
   WheelInit 5 35, WheelInit 4 35, WheelInit 3 35, WheelInit 2 35, WheelInit 1 35, WheelInit 0 35, WheelInit 5 36, WheelInit 4 36,
   WheelInit 3 36, WheelInit 2 36, WheelInit 1 36, WheelInit 0 36, WheelInit 3 37, WheelInit 2 37, WheelInit 1 37, WheelInit 0 37,
   WheelInit 1 38, WheelInit 0 38, WheelInit 3 39, WheelInit 2 39, WheelInit 1 39, WheelInit 0 39, WheelInit 5 40, WheelInit 4 40,
   WheelInit 3 40, WheelInit 2 40, WheelInit 1 40, WheelInit 0 40, WheelInit 1 41, WheelInit 0 41, WheelInit 5 42, WheelInit 4 42,
   WheelInit 3 42, WheelInit 2 42, WheelInit 1 42, WheelInit 0 42, WheelInit 3 43, WheelInit 2 43, WheelInit 1 43, WheelInit 0 43,
   WheelInit 1 44, WheelInit 0 44, WheelInit 3 45, WheelInit 2 45, WheelInit 1 45, WheelInit 0 45, WheelInit 1 46, WheelInit 0 46,
   WheelInit 9 47, WheelInit 8 47, WheelInit 7 47, WheelInit 6 47, WheelInit 5 47, WheelInit 4 47, WheelInit 3 47, WheelInit 2 47,
   WheelInit 1 47, WheelInit 0 47
  ]"

definition wheel30 :: "WheelElement list" where
  "wheel30 =
  [
   WheelElement BIT0 6 1 1, WheelElement BIT4 4 1 2, WheelElement BIT3 2 0 3, WheelElement BIT7 4 1 4,
   WheelElement BIT6 2 1 5, WheelElement BIT2 4 1 6, WheelElement BIT1 6 1 7, WheelElement BIT5 2 1 0,
   WheelElement BIT1 6 2 9, WheelElement BIT3 4 1 10, WheelElement BIT7 2 1 11, WheelElement BIT5 4 2 12,
   WheelElement BIT0 2 0 13, WheelElement BIT6 4 2 14, WheelElement BIT2 6 2 15, WheelElement BIT4 2 1 8,
   WheelElement BIT2 6 2 17, WheelElement BIT7 4 2 18, WheelElement BIT5 2 1 19, WheelElement BIT4 4 2 20,
   WheelElement BIT1 2 1 21, WheelElement BIT0 4 1 22, WheelElement BIT6 6 3 23, WheelElement BIT3 2 1 16,
   WheelElement BIT3 6 3 25, WheelElement BIT6 4 3 26, WheelElement BIT0 2 1 27, WheelElement BIT1 4 2 28,
   WheelElement BIT4 2 1 29, WheelElement BIT5 4 2 30, WheelElement BIT7 6 4 31, WheelElement BIT2 2 1 24,
   WheelElement BIT4 6 4 33, WheelElement BIT2 4 2 34, WheelElement BIT6 2 2 35, WheelElement BIT0 4 2 36,
   WheelElement BIT5 2 1 37, WheelElement BIT7 4 3 38, WheelElement BIT3 6 4 39, WheelElement BIT1 2 1 32,
   WheelElement BIT5 6 5 41, WheelElement BIT1 4 3 42, WheelElement BIT2 2 1 43, WheelElement BIT6 4 3 44,
   WheelElement BIT7 2 2 45, WheelElement BIT3 4 3 46, WheelElement BIT4 6 5 47, WheelElement BIT0 2 1 40,
   WheelElement BIT6 6 6 49, WheelElement BIT5 4 4 50, WheelElement BIT4 2 2 51, WheelElement BIT3 4 4 52,
   WheelElement BIT2 2 2 53, WheelElement BIT1 4 4 54, WheelElement BIT0 6 5 55, WheelElement BIT7 2 2 48,
   WheelElement BIT7 6 1 57, WheelElement BIT0 4 0 58, WheelElement BIT1 2 0 59, WheelElement BIT2 4 0 60,
   WheelElement BIT3 2 0 61, WheelElement BIT4 4 0 62, WheelElement BIT5 6 0 63, WheelElement BIT6 2 0 56
  ]"

definition wheel210 :: "WheelElement list" where
  "wheel210 =
  [
   WheelElement BIT0 10 2 1, WheelElement BIT3 2 0 2, WheelElement BIT7 4 1 3, WheelElement BIT6 2 1 4,
   WheelElement BIT2 4 1 5, WheelElement BIT1 6 1 6, WheelElement BIT5 2 1 7, WheelElement BIT0 6 1 8,
   WheelElement BIT4 4 1 9, WheelElement BIT3 2 0 10, WheelElement BIT7 4 1 11, WheelElement BIT6 6 2 12,
   WheelElement BIT1 6 1 13, WheelElement BIT5 2 1 14, WheelElement BIT0 6 1 15, WheelElement BIT4 4 1 16,
   WheelElement BIT3 2 0 17, WheelElement BIT7 6 2 18, WheelElement BIT2 4 1 19, WheelElement BIT1 6 1 20,
   WheelElement BIT5 8 2 21, WheelElement BIT4 4 1 22, WheelElement BIT3 2 0 23, WheelElement BIT7 4 1 24,
   WheelElement BIT6 2 1 25, WheelElement BIT2 4 1 26, WheelElement BIT1 8 2 27, WheelElement BIT0 6 1 28,
   WheelElement BIT4 4 1 29, WheelElement BIT3 6 1 30, WheelElement BIT6 2 1 31, WheelElement BIT2 4 1 32,
   WheelElement BIT1 6 1 33, WheelElement BIT5 2 1 34, WheelElement BIT0 6 1 35, WheelElement BIT4 6 1 36,
   WheelElement BIT7 4 1 37, WheelElement BIT6 2 1 38, WheelElement BIT2 4 1 39, WheelElement BIT1 6 1 40,
   WheelElement BIT5 2 1 41, WheelElement BIT0 6 1 42, WheelElement BIT4 4 1 43, WheelElement BIT3 2 0 44,
   WheelElement BIT7 4 1 45, WheelElement BIT6 2 1 46, WheelElement BIT2 10 2 47, WheelElement BIT5 2 1 0,
   WheelElement BIT1 10 3 49, WheelElement BIT7 2 1 50, WheelElement BIT5 4 2 51, WheelElement BIT0 2 0 52,
   WheelElement BIT6 4 2 53, WheelElement BIT2 6 2 54, WheelElement BIT4 2 1 55, WheelElement BIT1 6 2 56,
   WheelElement BIT3 4 1 57, WheelElement BIT7 2 1 58, WheelElement BIT5 4 2 59, WheelElement BIT0 6 2 60,
   WheelElement BIT2 6 2 61, WheelElement BIT4 2 1 62, WheelElement BIT1 6 2 63, WheelElement BIT3 4 1 64,
   WheelElement BIT7 2 1 65, WheelElement BIT5 6 2 66, WheelElement BIT6 4 2 67, WheelElement BIT2 6 2 68,
   WheelElement BIT4 8 3 69, WheelElement BIT3 4 1 70, WheelElement BIT7 2 1 71, WheelElement BIT5 4 2 72,
   WheelElement BIT0 2 0 73, WheelElement BIT6 4 2 74, WheelElement BIT2 8 3 75, WheelElement BIT1 6 2 76,
   WheelElement BIT3 4 1 77, WheelElement BIT7 6 3 78, WheelElement BIT0 2 0 79, WheelElement BIT6 4 2 80,
   WheelElement BIT2 6 2 81, WheelElement BIT4 2 1 82, WheelElement BIT1 6 2 83, WheelElement BIT3 6 2 84,
   WheelElement BIT5 4 2 85, WheelElement BIT0 2 0 86, WheelElement BIT6 4 2 87, WheelElement BIT2 6 2 88,
   WheelElement BIT4 2 1 89, WheelElement BIT1 6 2 90, WheelElement BIT3 4 1 91, WheelElement BIT7 2 1 92,
   WheelElement BIT5 4 2 93, WheelElement BIT0 2 0 94, WheelElement BIT6 10 4 95, WheelElement BIT4 2 1 48,
   WheelElement BIT2 10 4 97, WheelElement BIT5 2 1 98, WheelElement BIT4 4 2 99, WheelElement BIT1 2 1 100,
   WheelElement BIT0 4 1 101, WheelElement BIT6 6 3 102, WheelElement BIT3 2 1 103, WheelElement BIT2 6 2 104,
   WheelElement BIT7 4 2 105, WheelElement BIT5 2 1 106, WheelElement BIT4 4 2 107, WheelElement BIT1 6 2 108,
   WheelElement BIT6 6 3 109, WheelElement BIT3 2 1 110, WheelElement BIT2 6 2 111, WheelElement BIT7 4 2 112,
   WheelElement BIT5 2 1 113, WheelElement BIT4 6 3 114, WheelElement BIT0 4 1 115, WheelElement BIT6 6 3 116,
   WheelElement BIT3 8 3 117, WheelElement BIT7 4 2 118, WheelElement BIT5 2 1 119, WheelElement BIT4 4 2 120,
   WheelElement BIT1 2 1 121, WheelElement BIT0 4 1 122, WheelElement BIT6 8 4 123, WheelElement BIT2 6 2 124,
   WheelElement BIT7 4 2 125, WheelElement BIT5 6 3 126, WheelElement BIT1 2 1 127, WheelElement BIT0 4 1 128,
   WheelElement BIT6 6 3 129, WheelElement BIT3 2 1 130, WheelElement BIT2 6 2 131, WheelElement BIT7 6 3 132,
   WheelElement BIT4 4 2 133, WheelElement BIT1 2 1 134, WheelElement BIT0 4 1 135, WheelElement BIT6 6 3 136,
   WheelElement BIT3 2 1 137, WheelElement BIT2 6 2 138, WheelElement BIT7 4 2 139, WheelElement BIT5 2 1 140,
   WheelElement BIT4 4 2 141, WheelElement BIT1 2 1 142, WheelElement BIT0 10 4 143, WheelElement BIT3 2 1 96,
   WheelElement BIT3 10 6 145, WheelElement BIT0 2 1 146, WheelElement BIT1 4 2 147, WheelElement BIT4 2 1 148,
   WheelElement BIT5 4 2 149, WheelElement BIT7 6 4 150, WheelElement BIT2 2 1 151, WheelElement BIT3 6 3 152,
   WheelElement BIT6 4 3 153, WheelElement BIT0 2 1 154, WheelElement BIT1 4 2 155, WheelElement BIT4 6 3 156,
   WheelElement BIT7 6 4 157, WheelElement BIT2 2 1 158, WheelElement BIT3 6 3 159, WheelElement BIT6 4 3 160,
   WheelElement BIT0 2 1 161, WheelElement BIT1 6 3 162, WheelElement BIT5 4 2 163, WheelElement BIT7 6 4 164,
   WheelElement BIT2 8 4 165, WheelElement BIT6 4 3 166, WheelElement BIT0 2 1 167, WheelElement BIT1 4 2 168,
   WheelElement BIT4 2 1 169, WheelElement BIT5 4 2 170, WheelElement BIT7 8 5 171, WheelElement BIT3 6 3 172,
   WheelElement BIT6 4 3 173, WheelElement BIT0 6 3 174, WheelElement BIT4 2 1 175, WheelElement BIT5 4 2 176,
   WheelElement BIT7 6 4 177, WheelElement BIT2 2 1 178, WheelElement BIT3 6 3 179, WheelElement BIT6 6 4 180,
   WheelElement BIT1 4 2 181, WheelElement BIT4 2 1 182, WheelElement BIT5 4 2 183, WheelElement BIT7 6 4 184,
   WheelElement BIT2 2 1 185, WheelElement BIT3 6 3 186, WheelElement BIT6 4 3 187, WheelElement BIT0 2 1 188,
   WheelElement BIT1 4 2 189, WheelElement BIT4 2 1 190, WheelElement BIT5 10 6 191, WheelElement BIT2 2 1 144,
   WheelElement BIT4 10 6 193, WheelElement BIT6 2 2 194, WheelElement BIT0 4 2 195, WheelElement BIT5 2 1 196,
   WheelElement BIT7 4 3 197, WheelElement BIT3 6 4 198, WheelElement BIT1 2 1 199, WheelElement BIT4 6 4 200,
   WheelElement BIT2 4 2 201, WheelElement BIT6 2 2 202, WheelElement BIT0 4 2 203, WheelElement BIT5 6 4 204,
   WheelElement BIT3 6 4 205, WheelElement BIT1 2 1 206, WheelElement BIT4 6 4 207, WheelElement BIT2 4 2 208,
   WheelElement BIT6 2 2 209, WheelElement BIT0 6 3 210, WheelElement BIT7 4 3 211, WheelElement BIT3 6 4 212,
   WheelElement BIT1 8 5 213, WheelElement BIT2 4 2 214, WheelElement BIT6 2 2 215, WheelElement BIT0 4 2 216,
   WheelElement BIT5 2 1 217, WheelElement BIT7 4 3 218, WheelElement BIT3 8 5 219, WheelElement BIT4 6 4 220,
   WheelElement BIT2 4 2 221, WheelElement BIT6 6 4 222, WheelElement BIT5 2 1 223, WheelElement BIT7 4 3 224,
   WheelElement BIT3 6 4 225, WheelElement BIT1 2 1 226, WheelElement BIT4 6 4 227, WheelElement BIT2 6 4 228,
   WheelElement BIT0 4 2 229, WheelElement BIT5 2 1 230, WheelElement BIT7 4 3 231, WheelElement BIT3 6 4 232,
   WheelElement BIT1 2 1 233, WheelElement BIT4 6 4 234, WheelElement BIT2 4 2 235, WheelElement BIT6 2 2 236,
   WheelElement BIT0 4 2 237, WheelElement BIT5 2 1 238, WheelElement BIT7 10 7 239, WheelElement BIT1 2 1 192,
   WheelElement BIT5 10 8 241, WheelElement BIT2 2 1 242, WheelElement BIT6 4 3 243, WheelElement BIT7 2 2 244,
   WheelElement BIT3 4 3 245, WheelElement BIT4 6 5 246, WheelElement BIT0 2 1 247, WheelElement BIT5 6 5 248,
   WheelElement BIT1 4 3 249, WheelElement BIT2 2 1 250, WheelElement BIT6 4 3 251, WheelElement BIT7 6 5 252,
   WheelElement BIT4 6 5 253, WheelElement BIT0 2 1 254, WheelElement BIT5 6 5 255, WheelElement BIT1 4 3 256,
   WheelElement BIT2 2 1 257, WheelElement BIT6 6 5 258, WheelElement BIT3 4 3 259, WheelElement BIT4 6 5 260,
   WheelElement BIT0 8 6 261, WheelElement BIT1 4 3 262, WheelElement BIT2 2 1 263, WheelElement BIT6 4 3 264,
   WheelElement BIT7 2 2 265, WheelElement BIT3 4 3 266, WheelElement BIT4 8 6 267, WheelElement BIT5 6 5 268,
   WheelElement BIT1 4 3 269, WheelElement BIT2 6 4 270, WheelElement BIT7 2 2 271, WheelElement BIT3 4 3 272,
   WheelElement BIT4 6 5 273, WheelElement BIT0 2 1 274, WheelElement BIT5 6 5 275, WheelElement BIT1 6 4 276,
   WheelElement BIT6 4 3 277, WheelElement BIT7 2 2 278, WheelElement BIT3 4 3 279, WheelElement BIT4 6 5 280,
   WheelElement BIT0 2 1 281, WheelElement BIT5 6 5 282, WheelElement BIT1 4 3 283, WheelElement BIT2 2 1 284,
   WheelElement BIT6 4 3 285, WheelElement BIT7 2 2 286, WheelElement BIT3 10 8 287, WheelElement BIT0 2 1 240,
   WheelElement BIT6 10 10 289, WheelElement BIT4 2 2 290, WheelElement BIT3 4 4 291, WheelElement BIT2 2 2 292,
   WheelElement BIT1 4 4 293, WheelElement BIT0 6 5 294, WheelElement BIT7 2 2 295, WheelElement BIT6 6 6 296,
   WheelElement BIT5 4 4 297, WheelElement BIT4 2 2 298, WheelElement BIT3 4 4 299, WheelElement BIT2 6 6 300,
   WheelElement BIT0 6 5 301, WheelElement BIT7 2 2 302, WheelElement BIT6 6 6 303, WheelElement BIT5 4 4 304,
   WheelElement BIT4 2 2 305, WheelElement BIT3 6 6 306, WheelElement BIT1 4 4 307, WheelElement BIT0 6 5 308,
   WheelElement BIT7 8 8 309, WheelElement BIT5 4 4 310, WheelElement BIT4 2 2 311, WheelElement BIT3 4 4 312,
   WheelElement BIT2 2 2 313, WheelElement BIT1 4 4 314, WheelElement BIT0 8 7 315, WheelElement BIT6 6 6 316,
   WheelElement BIT5 4 4 317, WheelElement BIT4 6 6 318, WheelElement BIT2 2 2 319, WheelElement BIT1 4 4 320,
   WheelElement BIT0 6 5 321, WheelElement BIT7 2 2 322, WheelElement BIT6 6 6 323, WheelElement BIT5 6 6 324,
   WheelElement BIT3 4 4 325, WheelElement BIT2 2 2 326, WheelElement BIT1 4 4 327, WheelElement BIT0 6 5 328,
   WheelElement BIT7 2 2 329, WheelElement BIT6 6 6 330, WheelElement BIT5 4 4 331, WheelElement BIT4 2 2 332,
   WheelElement BIT3 4 4 333, WheelElement BIT2 2 2 334, WheelElement BIT1 10 9 335, WheelElement BIT7 2 2 288,
   WheelElement BIT7 10 1 337, WheelElement BIT1 2 0 338, WheelElement BIT2 4 0 339, WheelElement BIT3 2 0 340,
   WheelElement BIT4 4 0 341, WheelElement BIT5 6 0 342, WheelElement BIT6 2 0 343, WheelElement BIT7 6 1 344,
   WheelElement BIT0 4 0 345, WheelElement BIT1 2 0 346, WheelElement BIT2 4 0 347, WheelElement BIT3 6 0 348,
   WheelElement BIT5 6 0 349, WheelElement BIT6 2 0 350, WheelElement BIT7 6 1 351, WheelElement BIT0 4 0 352,
   WheelElement BIT1 2 0 353, WheelElement BIT2 6 0 354, WheelElement BIT4 4 0 355, WheelElement BIT5 6 0 356,
   WheelElement BIT6 8 1 357, WheelElement BIT0 4 0 358, WheelElement BIT1 2 0 359, WheelElement BIT2 4 0 360,
   WheelElement BIT3 2 0 361, WheelElement BIT4 4 0 362, WheelElement BIT5 8 0 363, WheelElement BIT7 6 1 364,
   WheelElement BIT0 4 0 365, WheelElement BIT1 6 0 366, WheelElement BIT3 2 0 367, WheelElement BIT4 4 0 368,
   WheelElement BIT5 6 0 369, WheelElement BIT6 2 0 370, WheelElement BIT7 6 1 371, WheelElement BIT0 6 0 372,
   WheelElement BIT2 4 0 373, WheelElement BIT3 2 0 374, WheelElement BIT4 4 0 375, WheelElement BIT5 6 0 376,
   WheelElement BIT6 2 0 377, WheelElement BIT7 6 1 378, WheelElement BIT0 4 0 379, WheelElement BIT1 2 0 380,
   WheelElement BIT2 4 0 381, WheelElement BIT3 2 0 382, WheelElement BIT4 10 0 383, WheelElement BIT6 2 0 336
  ]"

section \<open>Arithmetic notions used to state the properties\<close>

text \<open>Euler's totient function, counted over the residues \<open>0..m-1\<close>.\<close>

definition euler_phi :: "nat \<Rightarrow> nat" where
  "euler_phi m = length (filter (\<lambda>r. coprime r m) [0..<m])"

text \<open>Primality by trial division.\<close>

definition is_prime :: "nat \<Rightarrow> bool" where
  "is_prime n = (1 < n \<and> (\<forall>d \<in> {2..<n}. \<not> d dvd n))"

text \<open>
  The residue classes coprime to \<open>m\<close> are numbered in increasing order of their residues,
  from 0 on. The number of the class of a coprime residue \<open>r\<close> is the number of coprime
  residues below \<open>r\<close>.
\<close>

definition coprime_rank :: "nat \<Rightarrow> nat \<Rightarrow> nat" where
  "coprime_rank m r = length (filter (\<lambda>x. coprime x m) [0..<r])"

section \<open>The transition function stored in the wheel tables\<close>

text \<open>
  A sieving prime carries the index of its next multiple in the sieve and a wheel index.
  Crossing off one multiple adds \<open>nextFactor\<close> times the prime to the multiple and replaces
  the wheel index by \<open>nextIndex\<close>. The state kept here is the pair of the current factor
  (the number the prime is multiplied with) and the wheel index; reading a table outside
  its bounds is undefined in C++ and yields \<open>None\<close>.
\<close>

definition transition :: "WheelElement list \<Rightarrow> nat \<times> nat \<Rightarrow> (nat \<times> nat) option" where
  "transition wheel s =
     (case s of (factor, i) \<Rightarrow>
        if i < length wheel
        then Some (factor + nextFactor (wheel ! i), nextIndex (wheel ! i))
        else None)"

text \<open>
  \<open>iterate_transition wheel n s\<close> applies the transition \<open>n\<close> times and returns the states
  it went through, in order, together with the state reached.
\<close>

fun iterate_transition ::
  "WheelElement list \<Rightarrow> nat \<Rightarrow> nat \<times> nat \<Rightarrow> ((nat \<times> nat) list \<times> (nat \<times> nat)) option" where
  "iterate_transition wheel 0 s = Some ([], s)"
| "iterate_transition wheel (Suc n) s =
     (case transition wheel s of
        None \<Rightarrow> None
      | Some s' \<Rightarrow>
          (case iterate_transition wheel n s' of
             None \<Rightarrow> None
           | Some (visited, final) \<Rightarrow> Some (s # visited, final)))"

section \<open>Bit scan and bit extraction\<close>

type_synonym uint8_t = "8 word"
type_synonym uint32_t = "32 word"

text \<open>
  Modelled from the spec: the bit scan (\<open>ctz64\<close> of bits.hpp) is not among the sources.
  The spec's \<open>scanLowestSetBit\<close> returns the index of the lowest set bit of the word and the
  sentinel 64 if no bit is set, which is also what the comment above \<open>bitValues\<close> says of
  the count-trailing-zeros instruction.
\<close>

definition ctz64 :: "uint64_t \<Rightarrow> nat" where
  "ctz64 bits = length (takeWhile (\<lambda>i. \<not> bit bits i) [0..<64])"

text \<open>
  Modelled from the spec: the De Bruijn bit scan is not among the sources either. The
  comment above \<open>bruijnBitValues\<close> names the method (De Bruijn multiplication on the word
  with its lowest set bit separated): the word \<open>bits ^ (bits - 1)\<close> is multiplied by a
  64-bit De Bruijn constant and the upper six bits of the product index the table. The
  constant is a parameter here.
\<close>

definition bruijn_index :: "uint64_t \<Rightarrow> uint64_t \<Rightarrow> nat" where
  "bruijn_index debruijn bits = unat (drop_bit 58 ((bits XOR (bits - 1)) * debruijn))"

lemma ctz64_zero: "ctz64 0 = 64"
proof -
  have "takeWhile (\<lambda>i::nat. True) [0..<64] = [0..<64]"
    by (rule takeWhile_eq_all_conv [THEN iffD2]) simp
  then have "length (takeWhile (\<lambda>i::nat. True) [0..<64]) = length [0..<64]"
    by (rule arg_cong)
  then show ?thesis by (simp add: ctz64_def del: upt_Suc)
qed

lemma sentinel_entry: "bitValues ! 64 = 0"
  by (simp add: bitValues_def)

lemma clear_lowest_bit_less:
  fixes bits :: "'a::len word"
  assumes "bits \<noteq> 0"
  shows "unat (bits AND (bits - 1)) < unat bits"
proof -
  have "bits AND (bits - 1) \<le> bits - 1"
    by (rule word_and_le1)
  then have "unat (bits AND (bits - 1)) \<le> unat (bits - 1)"
    by (simp add: word_le_nat_alt)
  also from assms have "unat (bits - 1) < unat bits"
    by (rule measure_unat)
  finally show ?thesis .
qed

text \<open>
  Modelled from the spec: the macro \<open>GENERATE_PRIMES\<close> (defs.h) is not among the sources.
  Following the spec's extraction step, the lowest set bit of a word is scanned, mapped
  through \<open>bitValues\<close> and added to the lower bound of the word, the value is passed to the
  callback, the bit is cleared, and this is repeated until the word is exhausted, which is
  detected by the sentinel entry of the table and not by a separate test. The values have
  the integer type given to the macro as its second argument, which is \<open>uint32_t\<close> in
  \<open>PrimeNumberGenerator::generate\<close>; the type is a parameter here as well.
  The loop ends because the table entry is 0 when the word is 0, and clearing the lowest
  set bit of any other word makes it smaller.
\<close>

function extract_word ::
  "('n::semiring_1 \<Rightarrow> 's \<Rightarrow> 's) \<Rightarrow> 'n \<Rightarrow> uint64_t \<Rightarrow> 's \<Rightarrow> 's" where
  "extract_word callback lowerBound bits st =
     (let v = bitValues ! ctz64 bits in
      if v = 0 then st
      else extract_word callback lowerBound (bits AND (bits - 1))
             (callback (lowerBound + unsigned v) st))"
  by pat_completeness auto
termination
proof (relation "measure (\<lambda>(callback, lowerBound, bits, st). unat bits)")
  show "wf (measure (\<lambda>(callback :: 'n::semiring_1 \<Rightarrow> 's \<Rightarrow> 's, lowerBound :: 'n,
      bits :: uint64_t, st :: 's). unat bits))"
    by simp
next
  fix callback :: "'n::semiring_1 \<Rightarrow> 's \<Rightarrow> 's" and lowerBound :: 'n and bits :: uint64_t
    and st :: 's and v :: uint64_t
  assume "v = bitValues ! ctz64 bits" and "v \<noteq> 0"
  then have "bits \<noteq> 0"
    using ctz64_zero sentinel_entry by auto
  then show "((callback, lowerBound, bits AND bits - 1, callback (lowerBound + unsigned v) st),
      (callback, lowerBound, bits, st))
    \<in> measure (\<lambda>(callback, lowerBound, bits, st). unat bits)"
    by (simp add: clear_lowest_bit_less)
qed

declare extract_word.simps [simp del]

text \<open>
  The bytes of the sieve are scanned one after the other; a byte stands for 30 integers, so
  the lower bound advances by 30 from byte to byte.
\<close>

fun extract_bytes ::
  "('n::semiring_1 \<Rightarrow> 's \<Rightarrow> 's) \<Rightarrow> 'n \<Rightarrow> uint8_t list \<Rightarrow> 's \<Rightarrow> 's" where
  "extract_bytes callback lowerBound [] st = st"
| "extract_bytes callback lowerBound (byte # sieve) st =
     extract_bytes callback (lowerBound + 30) sieve
       (extract_word callback lowerBound (ucast byte) st)"

text \<open>
  The macro reads \<open>sieveSize\<close> bytes of the array \<open>sieve\<close>. Reading past the end of the
  array is undefined in C++ and yields \<open>None\<close>.
\<close>

definition GENERATE_PRIMES ::
  "('n::semiring_1 \<Rightarrow> 's \<Rightarrow> 's) \<Rightarrow> 'n \<Rightarrow> uint8_t list \<Rightarrow> nat \<Rightarrow> 's \<Rightarrow> 's option" where
  "GENERATE_PRIMES callback lowerBound sieve sieveSize st =
     (if sieveSize \<le> length sieve
      then Some (extract_bytes callback lowerBound (take sieveSize sieve) st)
      else None)"

text \<open>
  The values that the set bits of a sieve stand for: bit \<open>i\<close> of a byte stands for the lower
  bound of the byte plus \<open>bitValues[i]\<close>, and the lower bound grows by 30 from byte to byte.
\<close>

fun segment_values :: "'n::semiring_1 \<Rightarrow> uint8_t list \<Rightarrow> 'n list" where
  "segment_values lowerBound [] = []"
| "segment_values lowerBound (byte # sieve) =
     map (\<lambda>i. lowerBound + unsigned (bitValues ! i)) (filter (bit byte) [0..<8]) @
     segment_values (lowerBound + 30) sieve"

section \<open>PrimeNumberGenerator (PrimeNumberGenerator.cpp)\<close>

text \<open>
  \<open>PrimeNumberGenerator\<close> and \<open>PrimeNumberFinder\<close> are both sieves of Eratosthenes: the
  generator sieves the primes up to the square root of the finder's stop number, and the
  finder uses them to sieve its own range. The headers of the three classes are not among
  the sources, so the state holds what the two functions of PrimeNumberGenerator.cpp read
  and write, with the members named by their accessors. The numbers are natural numbers: the widths of the members are declared in the
  missing headers, and the only bound the file states (\<open>UINT32_MAX\<close>) is kept as a check.
\<close>

record SieveOfEratosthenes =
  getStartNumber :: nat
  getStopNumber :: nat
  getSieveSize :: nat
  getPreSieveLimit :: nat
  sievingPrimes :: "uint32_t list"

text \<open>
  The finder adds what it hands to the consumer of the primes. The generator holds a
  reference to the finder; it is the only reference used in the functions below, so the
  finder's state is kept inside the generator's and returned with it.
\<close>

record PrimeNumberFinder = SieveOfEratosthenes +
  delivered :: "nat list"

record PrimeNumberGenerator = SieveOfEratosthenes +
  primeNumberFinder :: PrimeNumberFinder






text \<open>
  The spec requires a sieve size to be a power of two. The test is written with the binary
  logarithm rounded up: \<open>x\<close> is a power of two exactly if it equals 2 to that logarithm.
\<close>

fun ceil_log2 :: "nat \<Rightarrow> nat" where
  "ceil_log2 x = (if x \<le> 1 then 0 else Suc (ceil_log2 ((x + 1) div 2)))"

declare ceil_log2.simps [simp del]

definition isPowerOf2 :: "nat \<Rightarrow> bool" where
  "isPowerOf2 x = (x = 2 ^ ceil_log2 x)"



text \<open>
  Modelled from the spec: \<open>SieveOfEratosthenes::sieve(uint32_t)\<close>, the operation of the
  finder (\<open>primeNumberFinder_.sieve\<close>) that \<open>generate\<close> passes to the macro, is not among the sources. By the spec it
  registers the prime as a newly active prime of the engine. It does not touch the values
  delivered to the consumer.
\<close>

definition PrimeNumberFinder_sieve ::
  "uint32_t \<Rightarrow> PrimeNumberFinder \<Rightarrow> PrimeNumberFinder" where
  "PrimeNumberFinder_sieve prime finder =
     finder\<lparr>sievingPrimes := sievingPrimes finder @ [prime]\<rparr>"

text \<open>
  \<open>generate\<close> takes the lower bound of the current segment, cast to 32 bits, and runs the
  macro with the finder's \<open>sieve\<close> as the callback. The segment's lower bound is the
  result of \<open>getSegmentLow\<close>, a member of the base class, and is passed in.
\<close>

definition generate ::
  "PrimeNumberGenerator \<Rightarrow> nat \<Rightarrow> uint8_t list \<Rightarrow> nat \<Rightarrow> PrimeNumberGenerator option" where
  "generate this segmentLow sieve sieveSize =
     (let lowerBound = (word_of_nat segmentLow :: uint32_t) in
      case GENERATE_PRIMES PrimeNumberFinder_sieve lowerBound sieve sieveSize
             (primeNumberFinder this) of
        None \<Rightarrow> None
      | Some finder \<Rightarrow> Some (this\<lparr>primeNumberFinder := finder\<rparr>))"

definition analyseSieve ::
  "PrimeNumberGenerator \<Rightarrow> nat \<Rightarrow> uint8_t list \<Rightarrow> nat \<Rightarrow> PrimeNumberGenerator option" where
  "analyseSieve this segmentLow sieve sieveSize = generate this segmentLow sieve sieveSize"

section \<open>Properties of the bit value tables\<close>

lemma length_bitValues: "length bitValues = 65"
  by (simp add: bitValues_def)

lemma length_bruijnBitValues: "length bruijnBitValues = 64"
  by (simp add: bruijnBitValues_def)

lemma bitValues_as_formula:
  "map unat (take 64 bitValues) =
   map (\<lambda>i. 30 * (i div 8) + [7, 11, 13, 17, 19, 23, 29, 31] ! (i mod 8)) [0..<64]"
  by (simp add: bitValues_def upt_rec)

lemma bitValues_as_coprimes:
  "map unat (take 64 bitValues) = filter (\<lambda>n. coprime n 30) [7..<242]"
  by code_simp

lemma unat_bitValues_nth:
  assumes "i < 64"
  shows "unat (bitValues ! i) = map unat (take 64 bitValues) ! i"
  using assms by (simp add: length_bitValues)

text \<open>
  Claim C2. For every index \<open>i\<close> in \<open>0..63\<close>, \<open>bitValues[i]\<close> is \<open>30 * (i div 8)\<close> plus
  the \<open>(i mod 8)\<close>-th element of \<open>(7, 11, 13, 17, 19, 23, 29, 31)\<close>. Equivalently, the first
  64 entries list, in strictly increasing order, exactly the integers \<open>n\<close> with
  \<open>7 \<le> n \<le> 241\<close> that are coprime to 30.
\<close>

theorem bitValues_residue_values:
  "(\<forall>i<64. unat (bitValues ! i) =
      30 * (i div 8) + [7, 11, 13, 17, 19, 23, 29, 31] ! (i mod 8)) \<and>
   map unat (take 64 bitValues) = filter (\<lambda>n. coprime n 30) [7..<242] \<and>
   sorted_wrt (<) (map unat (take 64 bitValues))"
proof (intro conjI allI impI)
  fix i :: nat
  assume "i < 64"
  then show "unat (bitValues ! i) =
      30 * (i div 8) + [7, 11, 13, 17, 19, 23, 29, 31] ! (i mod 8)"
    by (simp add: unat_bitValues_nth bitValues_as_formula del: upt_Suc)
next
  show "map unat (take 64 bitValues) = filter (\<lambda>n. coprime n 30) [7..<242]"
    by (rule bitValues_as_coprimes)
next
  show "sorted_wrt (<) (map unat (take 64 bitValues))"
    by (simp add: bitValues_def)
qed

theorem bitValues_residue_values_witness:
  "(13::nat) < 64 \<and> unat (bitValues ! 13) = 53"
proof -
  have "unat (bitValues ! 13) = 30 * (13 div 8) + [7, 11, 13, 17, 19, 23, 29, 31] ! (13 mod 8)"
    using bitValues_residue_values by simp
  then show ?thesis by simp
qed

subsection \<open>The bit scan\<close>

lemma ctz64_le: "ctz64 bits \<le> 64"
proof -
  have "length (takeWhile (\<lambda>i. \<not> bit bits i) [0..<64]) \<le> length [0..<64]"
    by (rule length_takeWhile_le)
  then show ?thesis by (simp add: ctz64_def)
qed

lemma ctz64_below:
  assumes "j < ctz64 bits"
  shows "\<not> bit bits j"
proof -
  let ?P = "\<lambda>i. \<not> bit bits i"
  from assms have j: "j < length (takeWhile ?P [0..<64])"
    by (simp add: ctz64_def)
  with ctz64_le [of bits] have "j < 64"
    by (simp add: ctz64_def)
  from j have "takeWhile ?P [0..<64] ! j \<in> set (takeWhile ?P [0..<64])"
    by (rule nth_mem)
  then have "?P (takeWhile ?P [0..<64] ! j)"
    by (rule set_takeWhileD [THEN conjunct2])
  moreover from j \<open>j < 64\<close> have "takeWhile ?P [0..<64] ! j = j"
    by (simp add: takeWhile_nth del: upt_Suc)
  ultimately show ?thesis by simp
qed

lemma ctz64_bit:
  assumes "ctz64 bits < 64"
  shows "bit bits (ctz64 bits)"
proof -
  let ?P = "\<lambda>i. \<not> bit bits i"
  from assms have "length (takeWhile ?P [0..<64]) < length [0..<64]"
    by (simp add: ctz64_def)
  then have "\<not> ?P ([0..<64] ! length (takeWhile ?P [0..<64]))"
    by (rule nth_length_takeWhile)
  with assms show ?thesis
    by (simp add: ctz64_def del: upt_Suc)
qed

lemma ctz64_less:
  assumes "bits \<noteq> 0"
  shows "ctz64 bits < 64"
proof (rule ccontr)
  assume "\<not> ctz64 bits < 64"
  with ctz64_le [of bits] have "ctz64 bits = 64" by simp
  then have "\<not> bit bits j" if "j < 64" for j
    using that ctz64_below [of j bits] by simp
  then have "bits = 0"
    by (intro bit_word_eqI) simp
  with assms show False by simp
qed

text \<open>
  The predecessor of a word whose lowest set bit is bit \<open>i\<close> has the bits below \<open>i\<close>
  set, bit \<open>i\<close> cleared and the bits above \<open>i\<close> unchanged.
\<close>

lemma bit_decr_lowest:
  fixes w :: "'a::len word"
  assumes low: "\<And>j. j < i \<Longrightarrow> \<not> bit w j" and set: "bit w i"
  shows "bit (w - 1) n \<longleftrightarrow> (n < i \<and> n < LENGTH('a)) \<or> (bit w n \<and> n \<noteq> i)"
proof -
  define m where "m = Suc i"
  define h where "h = push_bit m (drop_bit m w)"
  have m: "k < m \<longleftrightarrow> k < i \<or> k = i" for k
    by (auto simp add: m_def)
  have bit_h: "bit h k \<longleftrightarrow> bit w k \<and> k \<noteq> i" for k
    using low [of k] set m [of k] bit_imp_le_length [of w k]
    by (cases "k < m") (auto simp add: h_def bit_simps not_less)
  have "w = h OR push_bit i 1"
  proof (rule bit_word_eqI)
    fix k assume "k < LENGTH('a)"
    then show "bit w k \<longleftrightarrow> bit (h OR push_bit i 1) k"
      using set by (auto simp add: bit_h bit_simps)
  qed
  also have "\<dots> = h + push_bit i 1"
    by (intro disjunctive_add [symmetric]) (auto simp add: bit_h bit_simps)
  finally have "w = h + 2 ^ i"
    by (simp add: push_bit_eq_mult)
  then have "w - 1 = h + (2 ^ i - 1)"
    by simp
  also have "\<dots> = h + mask i"
    by (simp add: mask_eq_decr_exp)
  also have "\<dots> = h OR mask i"
    using low by (intro disjunctive_add) (auto simp add: bit_h bit_simps)
  finally have "bit (w - 1) n \<longleftrightarrow> bit (h OR mask i) n"
    by simp
  then show ?thesis
    by (auto simp add: bit_h bit_simps)
qed

lemma lowest_bit_xor_decr:
  fixes w :: "'a::len word"
  assumes low: "\<And>j. j < i \<Longrightarrow> \<not> bit w j" and set: "bit w i"
  shows "w XOR (w - 1) = mask (Suc i)"
proof (rule bit_word_eqI)
  fix n assume n: "n < LENGTH('a)"
  have "bit (w XOR (w - 1)) n \<longleftrightarrow> bit w n \<noteq> bit (w - 1) n"
    by (simp add: bit_simps)
  also have "\<dots> \<longleftrightarrow> n \<le> i"
    using n low [of n] set
    by (cases n i rule: linorder_cases)
      (auto simp add: bit_decr_lowest [of i w, OF low set])
  also have "\<dots> \<longleftrightarrow> bit (mask (Suc i) :: 'a word) n"
    using n by (auto simp add: bit_simps)
  finally show "bit (w XOR (w - 1)) n \<longleftrightarrow> bit (mask (Suc i) :: 'a word) n" .
qed

lemma lowest_bit_and_decr:
  fixes w :: "'a::len word"
  assumes low: "\<And>j. j < i \<Longrightarrow> \<not> bit w j" and set: "bit w i"
  shows "bit (w AND (w - 1)) n \<longleftrightarrow> bit w n \<and> n \<noteq> i"
  using low [of n] by (auto simp add: bit_simps bit_decr_lowest [of i w, OF low set])


lemma xor_decr_ctz64:
  assumes "bits \<noteq> 0"
  shows "bits XOR (bits - 1) = mask (Suc (ctz64 bits))"
  using assms by (intro lowest_bit_xor_decr ctz64_below ctz64_bit ctz64_less)

lemma bit_and_decr_ctz64:
  assumes "bits \<noteq> 0"
  shows "bit (bits AND (bits - 1)) n \<longleftrightarrow> bit bits n \<and> n \<noteq> ctz64 bits"
  using assms by (intro lowest_bit_and_decr ctz64_below ctz64_bit ctz64_less)

lemma bitValues_nonzero:
  assumes "i < 64"
  shows "bitValues ! i \<noteq> 0"
proof -
  have "0 \<notin> set (take 64 bitValues)"
    by (simp add: bitValues_def)
  moreover from assms have "bitValues ! i \<in> set (take 64 bitValues)"
    by (auto simp add: in_set_conv_nth length_bitValues intro!: exI [of _ i])
  ultimately show ?thesis by auto
qed

lemma sentinel_iff: "bitValues ! ctz64 bits = 0 \<longleftrightarrow> bits = 0"
  using ctz64_less [of bits] bitValues_nonzero [of "ctz64 bits"]
  by (auto simp add: ctz64_zero sentinel_entry)

lemma filter_set_bits:
  assumes "bits \<noteq> 0"
  shows "filter (bit bits) [0..<64] =
    ctz64 bits # filter (bit (bits AND (bits - 1))) [0..<64]"
proof -
  let ?c = "ctz64 bits" and ?bits' = "bits AND (bits - 1)"
  from assms have c: "?c < 64" by (rule ctz64_less)
  then have split: "[0..<64] = [0..<?c] @ ?c # [Suc ?c..<64]"
    by (metis less_imp_le_nat upt_add_eq_append upt_conv_Cons zero_le le_add_diff_inverse)
  have 1: "filter (bit bits) [0..<?c] = []" "filter (bit ?bits') [0..<?c] = []"
    using assms by (auto simp add: filter_empty_conv bit_and_decr_ctz64 dest: ctz64_below)
  have 2: "filter (bit bits) [Suc ?c..<64] = filter (bit ?bits') [Suc ?c..<64]"
    using assms by (intro filter_cong) (auto simp add: bit_and_decr_ctz64)
  have 3: "bit bits ?c" "\<not> bit ?bits' ?c"
    using assms c by (auto simp add: bit_and_decr_ctz64 ctz64_bit)
  show ?thesis
    by (subst (1 2) split) (simp add: 1 2 3 del: upt_Suc)
qed

text \<open>
  The extraction loop calls the callback with the values of the set bits of the word, in the
  order of the bits.
\<close>

lemma extract_word_fold:
  "extract_word callback lowerBound bits st =
   fold callback (map (\<lambda>i. lowerBound + unsigned (bitValues ! i)) (filter (bit bits) [0..<64])) st"
proof (induction callback lowerBound bits st rule: extract_word.induct)
  case (1 callback lowerBound bits st)
  show ?case
  proof (cases "bits = 0")
    case True
    then show ?thesis
      by (subst extract_word.simps) (simp add: ctz64_zero sentinel_entry del: upt_Suc)
  next
    case False
    then have v: "bitValues ! ctz64 bits \<noteq> 0"
      by (simp add: sentinel_iff)
    with 1 have "extract_word callback lowerBound (bits AND (bits - 1))
        (callback (lowerBound + unsigned (bitValues ! ctz64 bits)) st) =
      fold callback (map (\<lambda>i. lowerBound + unsigned (bitValues ! i))
        (filter (bit (bits AND (bits - 1))) [0..<64]))
        (callback (lowerBound + unsigned (bitValues ! ctz64 bits)) st)"
      by simp
    with v show ?thesis
      by (subst extract_word.simps, subst filter_set_bits [OF False])
        (simp add: Let_def del: upt_Suc)
  qed
qed

subsection \<open>The two tables\<close>

lemma bruijn_table_single_bits:
  "map (\<lambda>i. bruijnBitValues !
      unat (drop_bit 58 (mask (Suc i) * (0x3F08A4C6ACB9DBD :: uint64_t)))) [0..<64]
   = take 64 bitValues"
  by (simp add: bruijnBitValues_def bitValues_def upt_rec mask_numeral mask_Suc_double)

lemma bruijn_index_less: "bruijn_index debruijn bits < 64"
proof -
  have "unat ((bits XOR (bits - 1)) * debruijn) < 2 ^ 64"
    using unsigned_less [of "(bits XOR (bits - 1)) * debruijn"] by simp
  then have "unat ((bits XOR (bits - 1)) * debruijn) div 2 ^ 58 < 64"
    by (intro less_mult_imp_div_less) simp
  then show ?thesis
    by (simp add: bruijn_index_def drop_bit_eq_div unat_div)
qed

lemma bruijn_lookup:
  assumes "bits \<noteq> 0"
  shows "bruijnBitValues ! bruijn_index 0x3F08A4C6ACB9DBD bits = bitValues ! ctz64 bits"
proof -
  let ?f = "\<lambda>i. bruijnBitValues !
      unat (drop_bit 58 (mask (Suc i) * (0x3F08A4C6ACB9DBD :: uint64_t)))"
  from assms have c: "ctz64 bits < 64" by (rule ctz64_less)
  then have "map ?f [0..<64] ! ctz64 bits = ?f (ctz64 bits)"
    by (simp del: upt_Suc)
  moreover from c have "take 64 bitValues ! ctz64 bits = bitValues ! ctz64 bits"
    by simp
  ultimately have "?f (ctz64 bits) = bitValues ! ctz64 bits"
    by (simp only: bruijn_table_single_bits)
  with assms show ?thesis
    by (simp add: bruijn_index_def xor_decr_ctz64)
qed

lemma tables_agree_at:
  "filter (\<lambda>i. bitValues ! i = bruijnBitValues ! i) [0..<64] = [0, 54, 63]"
  by (simp add: bruijnBitValues_def bitValues_def upt_rec)

text \<open>
  Claim C5, as the code has it. The two tables do not hold the same value at every index:
  they agree at the indices 0, 54 and 63 only. They are consistent through the De Bruijn
  index: for the multiplier \<open>0x3F08A4C6ACB9DBD\<close> and every 64-bit word that is not 0, the
  entry of \<open>bruijnBitValues\<close> at the De Bruijn index of the word, which is below 64, is the
  entry of \<open>bitValues\<close> at the number of trailing zeros of the word.
\<close>

theorem bruijnBitValues_consistent:
  "(\<forall>bits. bits \<noteq> 0 \<longrightarrow>
      bruijn_index 0x3F08A4C6ACB9DBD bits < length bruijnBitValues \<and>
      bruijnBitValues ! bruijn_index 0x3F08A4C6ACB9DBD bits = bitValues ! ctz64 bits) \<and>
   filter (\<lambda>i. bitValues ! i = bruijnBitValues ! i) [0..<64] = [0, 54, 63]"
  by (simp add: bruijn_lookup bruijn_index_less tables_agree_at length_bruijnBitValues
      del: upt_Suc)

theorem bruijnBitValues_consistent_witness:
  "(40 :: uint64_t) \<noteq> 0 \<and>
   bruijnBitValues ! bruijn_index 0x3F08A4C6ACB9DBD 40 = bitValues ! ctz64 40 \<and>
   ctz64 40 = 3 \<and> bitValues ! 3 = 17"
proof -
  have nz: "(40 :: uint64_t) \<noteq> 0"
    by simp
  with bruijnBitValues_consistent
  have "bruijnBitValues ! bruijn_index 0x3F08A4C6ACB9DBD 40 = bitValues ! ctz64 40"
    by blast
  moreover have "ctz64 40 = 3"
    by (simp add: ctz64_def upt_rec bit_numeral_simps)
  moreover have "bitValues ! 3 = 17"
    by (simp add: bitValues_def)
  ultimately show ?thesis
    using nz by simp
qed

text \<open>The claim as stated fails at index 1: \<open>bitValues[1]\<close> is 11 and \<open>bruijnBitValues[1]\<close> is 47.\<close>

theorem bruijnBitValues_entrywise_counterexample:
  "bitValues ! 1 = 11 \<and> bruijnBitValues ! 1 = 47 \<and> bitValues ! 1 \<noteq> bruijnBitValues ! 1"
  by (simp add: bitValues_def bruijnBitValues_def)

text \<open>
  Claim C6. The 64 entries of \<open>bruijnBitValues\<close> are the 64 values \<open>bitValues[0]\<close>, ...,
  \<open>bitValues[63]\<close>, each exactly once: \<open>bruijnBitValues\<close> is \<open>bitValues\<close> restricted to
  \<open>0..63\<close> read through a permutation of the indices, and the two tables are equal as
  multisets and not entry by entry.
\<close>

theorem bruijnBitValues_permutation:
  "length bruijnBitValues = 64 \<and>
   distinct bruijnBitValues \<and>
   mset bruijnBitValues = mset (take 64 bitValues) \<and>
   set bruijnBitValues = set (take 64 bitValues) \<and>
   (\<exists>p. mset p = mset [0..<64] \<and> bruijnBitValues = map (\<lambda>j. bitValues ! j) p) \<and>
   bruijnBitValues \<noteq> take 64 bitValues"
proof -
  let ?p = "[ 0, 11,  1, 12, 16, 29,  2, 13, 22, 17, 41, 25, 30, 48,  3, 61,
      14, 20, 23, 18, 34, 36, 42, 26, 38, 31, 53, 44, 49, 56,  4, 62,
      10, 15, 28, 21, 40, 24, 47, 60, 19, 33, 35, 37, 52, 43, 55,  9,
      27, 39, 46, 59, 32, 51, 54,  8, 45, 58, 50,  7, 57,  6,  5, 63 :: nat]"
  have m: "mset bruijnBitValues = mset (take 64 bitValues)"
    by (simp add: bitValues_def bruijnBitValues_def)
  have "mset ?p = mset [0..<64]"
    by code_simp
  moreover have "bruijnBitValues = map (\<lambda>j. bitValues ! j) ?p"
    by (simp add: bitValues_def bruijnBitValues_def)
  ultimately have "\<exists>p. mset p = mset [0..<64] \<and> bruijnBitValues = map (\<lambda>j. bitValues ! j) p"
    by blast
  moreover have "distinct bruijnBitValues"
    by (simp add: bruijnBitValues_def)
  moreover have "bruijnBitValues \<noteq> take 64 bitValues"
    by (simp add: bitValues_def bruijnBitValues_def)
  moreover from m have "set bruijnBitValues = set (take 64 bitValues)"
    by (rule mset_eq_setD)
  ultimately show ?thesis
    using m by (simp add: length_bruijnBitValues del: upt_Suc)
qed

lemma fold_snoc: "fold (\<lambda>x xs. xs @ [x]) ys zs = zs @ ys"
  by (induction ys arbitrary: zs) simp_all

lemma not_is_prime_0: "\<not> is_prime 0"
  by (simp add: is_prime_def)

text \<open>
  Claim C7. \<open>bitValues\<close> has 65 entries and \<open>bitValues[64]\<close> is 0, which is not a prime.
  Every bit scan result, 64 for the all-zero word included, is an index inside the table,
  and the entry at the scan result is the sentinel 0 exactly when the word is exhausted.
  The extraction loop therefore passes on the values of the set bits of the word, which
  come from the entries below index 64, and never the sentinel.
\<close>

theorem bitValues_sentinel:
  "length bitValues = 65 \<and> bitValues ! 64 = 0 \<and> \<not> is_prime (unat (bitValues ! 64)) \<and>
   (\<forall>i\<le>64. i < length bitValues) \<and>
   (\<forall>i<64. bitValues ! i \<noteq> 0) \<and>
   (\<forall>bits. ctz64 bits < length bitValues \<and> (bitValues ! ctz64 bits = 0 \<longleftrightarrow> bits = 0)) \<and>
   (\<forall>(lowerBound :: 'n::semiring_1) bits.
      extract_word (\<lambda>prime primes. primes @ [prime]) lowerBound bits [] =
      map (\<lambda>i. lowerBound + unsigned (bitValues ! i)) (filter (bit bits) [0..<64]))"
proof -
  have "ctz64 bits < length bitValues" for bits
    using ctz64_le [of bits] by (simp add: length_bitValues)
  moreover have "extract_word (\<lambda>prime primes. primes @ [prime]) lowerBound bits [] =
      map (\<lambda>i. lowerBound + unsigned (bitValues ! i)) (filter (bit bits) [0..<64])"
    for lowerBound :: 'n and bits
    by (simp add: extract_word_fold fold_snoc del: upt_Suc)
  ultimately show ?thesis
    by (simp add: length_bitValues sentinel_entry not_is_prime_0 bitValues_nonzero sentinel_iff
        del: upt_Suc)
qed

theorem bitValues_sentinel_witness:
  "(64::nat) \<le> 64 \<and> 64 < length bitValues \<and>
   extract_word (\<lambda>prime primes. primes @ [prime]) (30 :: uint32_t) 0x85 [] = [37, 43, 61]"
proof -
  from bitValues_sentinel have "64 < length bitValues"
    by blast
  moreover from bitValues_sentinel
  have "extract_word (\<lambda>prime primes. primes @ [prime]) (30 :: uint32_t) 0x85 [] =
      map (\<lambda>i. 30 + ucast (bitValues ! i)) (filter (bit (0x85 :: uint64_t)) [0..<64])"
    by blast
  moreover have "map (\<lambda>i. 30 + ucast (bitValues ! i)) (filter (bit (0x85 :: uint64_t)) [0..<64])
      = [37, 43, 61 :: uint32_t]"
    by (simp add: bitValues_def upt_rec bit_numeral_simps)
  ultimately show ?thesis
    by simp
qed

subsection \<open>The primes a segment yields\<close>

lemma filter_bits_ucast:
  fixes byte :: uint8_t
  shows "filter (bit (ucast byte :: uint64_t)) [0..<64] = filter (bit byte) [0..<8]"
proof -
  have "[0..<64] = [0..<8] @ [8..<64]"
    by (simp add: upt_rec)
  moreover have "filter (bit (ucast byte :: uint64_t)) [0..<8] = filter (bit byte) [0..<8]"
    by (intro filter_cong) (auto simp add: bit_simps simp del: upt_Suc)
  moreover have "filter (bit (ucast byte :: uint64_t)) [8..<64] = []"
    by (auto simp add: filter_empty_conv bit_simps simp del: upt_Suc dest: bit_imp_le_length)
  ultimately show ?thesis
    by (simp del: upt_Suc)
qed

lemma extract_bytes_fold:
  "extract_bytes callback lowerBound sieve st =
   fold callback (segment_values lowerBound sieve) st"
  by (induction sieve arbitrary: lowerBound st)
    (simp_all add: extract_word_fold filter_bits_ucast del: upt_Suc)

lemma fold_PrimeNumberFinder_sieve:
  "fold PrimeNumberFinder_sieve primes finder =
   finder\<lparr>sievingPrimes := sievingPrimes finder @ primes\<rparr>"
  by (induction primes arbitrary: finder) (simp_all add: PrimeNumberFinder_sieve_def)

text \<open>
  Claim C9. Every value that \<open>generate\<close> extracts from a finished segment is passed to the
  \<open>sieve\<close> operation of the finder, in the order of extraction, where it is appended to
  the finder's sieving primes. Nothing else changes: the values delivered to the consumer
  of the finder are the same before and after, and the generator itself delivers nothing.
  \<open>analyseSieve\<close> does the same.
\<close>

theorem generate_feeds_finder:
  assumes "sieveSize \<le> length sieve"
  shows "generate this segmentLow sieve sieveSize =
      Some (this\<lparr>primeNumberFinder := (primeNumberFinder this)
        \<lparr>sievingPrimes := sievingPrimes (primeNumberFinder this) @
           segment_values (word_of_nat segmentLow) (take sieveSize sieve)\<rparr>\<rparr>) \<and>
    analyseSieve this segmentLow sieve sieveSize = generate this segmentLow sieve sieveSize \<and>
    (\<forall>this'. generate this segmentLow sieve sieveSize = Some this' \<longrightarrow>
      delivered (primeNumberFinder this') = delivered (primeNumberFinder this))"
  using assms
  by (simp add: generate_def analyseSieve_def GENERATE_PRIMES_def extract_bytes_fold
      fold_PrimeNumberFinder_sieve)

theorem generate_feeds_finder_witness:
  "(2::nat) \<le> length [0xFF, 0xEF :: uint8_t] \<and>
   map_option (\<lambda>this'. (sievingPrimes (primeNumberFinder this'),
                         delivered (primeNumberFinder this')))
     (generate
        \<lparr>getStartNumber = 20, getStopNumber = 1000, getSieveSize = 32768,
         getPreSieveLimit = 13, sievingPrimes = [],
         primeNumberFinder =
           \<lparr>getStartNumber = 0, getStopNumber = 1000000, getSieveSize = 32768,
            getPreSieveLimit = 19, sievingPrimes = [], delivered = [2, 3, 5]\<rparr>\<rparr>
        0 [0xFF, 0xEF] 2) =
   Some ([7, 11, 13, 17, 19, 23, 29, 31, 37, 41, 43, 47, 53, 59, 61], [2, 3, 5])"
proof -
  have len: "(2::nat) \<le> length [0xFF, 0xEF :: uint8_t]"
    by simp
  have "segment_values (word_of_nat 0) (take 2 [0xFF, 0xEF]) =
      [7, 11, 13, 17, 19, 23, 29, 31, 37, 41, 43, 47, 53, 59, 61]"
    by (simp add: bitValues_def upt_rec bit_numeral_simps)
  with generate_feeds_finder [OF len] show ?thesis
    by simp
qed

subsection \<open>The WheelInit tables\<close>

text \<open>
  A table is checked in one pass from residue \<open>r\<close> on: the wheel index of an entry is the
  number \<open>idx\<close> of coprime residues seen so far, and its factor is 0 at a coprime residue
  and one more than the factor of the next entry elsewhere.
\<close>

fun check_init :: "nat \<Rightarrow> nat \<Rightarrow> nat \<Rightarrow> WheelInit list \<Rightarrow> bool" where
  "check_init m r idx [] = True"
| "check_init m r idx (e # es) =
     (wheelIndex e = idx \<and>
      (if coprime r m then nextMultipleFactor e = 0
       else (case es of [] \<Rightarrow> False
             | e' # _ \<Rightarrow> nextMultipleFactor e = Suc (nextMultipleFactor e'))) \<and>
      check_init m (Suc r) (if coprime r m then Suc idx else idx) es)"

lemma wheel30Init_check: "check_init 30 0 0 wheel30Init"
  by code_simp

lemma wheel210Init_check: "check_init 210 0 0 wheel210Init"
  by code_simp

lemma coprime_rank_Suc:
  "coprime_rank m (Suc r) = (if coprime r m then Suc (coprime_rank m r) else coprime_rank m r)"
  by (simp add: coprime_rank_def)

lemma coprime_rank_skip:
  assumes "\<forall>k<f. \<not> coprime (r + k) m"
  shows "coprime_rank m (r + f) = coprime_rank m r"
  using assms
proof (induction f)
  case 0
  then show ?case by simp
next
  case (Suc f)
  then show ?case by (simp add: coprime_rank_Suc)
qed

lemma check_init_sound:
  assumes "check_init m r idx es" and "idx = coprime_rank m r" and "j < length es"
  shows "coprime (r + j + nextMultipleFactor (es ! j)) m \<and>
    (\<forall>k<nextMultipleFactor (es ! j). \<not> coprime (r + j + k) m) \<and>
    wheelIndex (es ! j) = coprime_rank m (r + j + nextMultipleFactor (es ! j)) \<and>
    r + j + nextMultipleFactor (es ! j) < r + length es"
  using assms
proof (induction es arbitrary: r idx j)
  case Nil
  then show ?case by simp
next
  case (Cons e es)
  let ?idx' = "if coprime r m then Suc idx else idx"
  from Cons.prems have chk: "check_init m (Suc r) ?idx' es"
    and idx: "wheelIndex e = idx" and idx': "?idx' = coprime_rank m (Suc r)"
    by (auto simp add: coprime_rank_Suc split: if_splits)
  note IH = Cons.IH [OF chk idx']
  show ?case
  proof (cases j)
    case (Suc j')
    with Cons.prems have "j' < length es" by simp
    from IH [OF this] Suc show ?thesis by simp
  next
    case 0
    show ?thesis
    proof (cases "coprime r m")
      case True
      with Cons.prems 0 show ?thesis by simp
    next
      case False
      with Cons.prems obtain e' es' where es: "es = e' # es'"
        and f: "nextMultipleFactor e = Suc (nextMultipleFactor e')"
        by (auto split: list.splits)
      from es have "0 < length es" by simp
      from IH [OF this] es
      have 1: "coprime (Suc r + nextMultipleFactor e') m"
        and 2: "\<forall>k<nextMultipleFactor e'. \<not> coprime (Suc r + k) m"
        and 3: "Suc r + nextMultipleFactor e' < Suc r + length es"
        by simp_all
      from 2 False have none: "\<forall>k<nextMultipleFactor e. \<not> coprime (r + k) m"
        by (auto simp add: f less_Suc_eq_0_disj)
      then have "coprime_rank m (r + nextMultipleFactor e) = coprime_rank m r"
        by (rule coprime_rank_skip)
      with 1 3 none idx Cons.prems(2) 0 show ?thesis
        by (simp add: f)
    qed
  qed
qed

lemma length_wheel30Init: "length wheel30Init = 30"
  by (simp add: wheel30Init_def)

lemma length_wheel210Init: "length wheel210Init = 210"
  by (simp add: wheel210Init_def)

lemma coprime_add_mod:
  fixes n f m :: nat
  shows "coprime (n + f) m \<longleftrightarrow> coprime (n mod m + f) m"
proof (cases "m = 0")
  case True
  then show ?thesis by simp
next
  case False
  then have "coprime (n + f) m \<longleftrightarrow> coprime ((n + f) mod m) m"
    by simp
  also have "(n + f) mod m = (n mod m + f) mod m"
    by (simp add: mod_add_left_eq)
  also from False have "coprime ((n mod m + f) mod m) m \<longleftrightarrow> coprime (n mod m + f) m"
    by simp
  finally show ?thesis .
qed

lemma wheelInit_entry:
  assumes "check_init m 0 0 init" and "r < length init"
  shows "coprime (r + nextMultipleFactor (init ! r)) m \<and>
    (\<forall>k<nextMultipleFactor (init ! r). \<not> coprime (r + k) m) \<and>
    (coprime r m \<longrightarrow> nextMultipleFactor (init ! r) = 0) \<and>
    wheelIndex (init ! r) = coprime_rank m (r + nextMultipleFactor (init ! r)) \<and>
    r + nextMultipleFactor (init ! r) < length init"
proof -
  have "0 = coprime_rank m 0"
    by (simp add: coprime_rank_def)
  from check_init_sound [OF assms(1) this assms(2)]
  have *: "coprime (r + nextMultipleFactor (init ! r)) m"
    "\<forall>k<nextMultipleFactor (init ! r). \<not> coprime (r + k) m"
    "wheelIndex (init ! r) = coprime_rank m (r + nextMultipleFactor (init ! r))"
    "r + nextMultipleFactor (init ! r) < length init"
    by simp_all
  from *(2) have "coprime r m \<longrightarrow> nextMultipleFactor (init ! r) = 0"
    by (cases "nextMultipleFactor (init ! r)") auto
  with * show ?thesis by simp
qed

text \<open>
  Claim C4. For each modulus \<open>M\<close> in \<open>{30, 210}\<close> and every residue \<open>r\<close> below \<open>M\<close>, the
  entry of the WheelInit table for \<open>r\<close> holds the offset to the smallest integer from \<open>r\<close> on
  that is coprime to \<open>M\<close>, which is 0 when \<open>r\<close> is coprime to \<open>M\<close>, and the wheel index of
  the residue class of that integer. Adding the offset stored for \<open>n mod M\<close> to any number
  \<open>n\<close> gives a number coprime to \<open>M\<close>.
\<close>

theorem wheelInit_next_coprime:
  "length wheel30Init = 30 \<and> length wheel210Init = 210 \<and>
   (\<forall>r<30.
      coprime (r + nextMultipleFactor (wheel30Init ! r)) 30 \<and>
      (\<forall>k<nextMultipleFactor (wheel30Init ! r). \<not> coprime (r + k) 30) \<and>
      (coprime r 30 \<longrightarrow> nextMultipleFactor (wheel30Init ! r) = 0) \<and>
      wheelIndex (wheel30Init ! r) =
        coprime_rank 30 (r + nextMultipleFactor (wheel30Init ! r))) \<and>
   (\<forall>r<210.
      coprime (r + nextMultipleFactor (wheel210Init ! r)) 210 \<and>
      (\<forall>k<nextMultipleFactor (wheel210Init ! r). \<not> coprime (r + k) 210) \<and>
      (coprime r 210 \<longrightarrow> nextMultipleFactor (wheel210Init ! r) = 0) \<and>
      wheelIndex (wheel210Init ! r) =
        coprime_rank 210 (r + nextMultipleFactor (wheel210Init ! r))) \<and>
   (\<forall>n. coprime (n + nextMultipleFactor (wheel30Init ! (n mod 30))) 30) \<and>
   (\<forall>n. coprime (n + nextMultipleFactor (wheel210Init ! (n mod 210))) 210)"
proof -
  note e30 = wheelInit_entry [OF wheel30Init_check, unfolded length_wheel30Init]
  note e210 = wheelInit_entry [OF wheel210Init_check, unfolded length_wheel210Init]
  have "coprime (n + nextMultipleFactor (wheel30Init ! (n mod 30))) 30" for n
    using e30 [of "n mod 30"] by (simp add: coprime_add_mod [of n _ 30])
  moreover have "coprime (n + nextMultipleFactor (wheel210Init ! (n mod 210))) 210" for n
    using e210 [of "n mod 210"] by (simp add: coprime_add_mod [of n _ 210])
  ultimately show ?thesis
    using e30 e210 by (simp add: length_wheel30Init length_wheel210Init)
qed

theorem wheelInit_next_coprime_witness:
  "(2::nat) < 30 \<and> nextMultipleFactor (wheel30Init ! 2) = 5 \<and>
   coprime (2 + nextMultipleFactor (wheel30Init ! 2)) 30 \<and>
   wheelIndex (wheel30Init ! 2) = coprime_rank 30 (2 + nextMultipleFactor (wheel30Init ! 2)) \<and>
   wheelIndex (wheel30Init ! 2) = 1"
proof -
  have "(2::nat) < 30"
    by simp
  with wheelInit_next_coprime
  have "coprime (2 + nextMultipleFactor (wheel30Init ! 2)) 30"
    and "wheelIndex (wheel30Init ! 2) =
      coprime_rank 30 (2 + nextMultipleFactor (wheel30Init ! 2))"
    by blast+
  moreover have "nextMultipleFactor (wheel30Init ! 2) = 5" "wheelIndex (wheel30Init ! 2) = 1"
    by (simp_all add: wheel30Init_def)
  ultimately show ?thesis
    by simp
qed

subsection \<open>The cycle of the wheel\<close>

lemma transition_take:
  assumes "transition (take m wheel) s = Some s'"
  shows "transition wheel s = Some s'"
  using assms by (cases s) (auto simp add: transition_def split: if_splits)

lemma iterate_transition_take:
  assumes "iterate_transition (take m wheel) n s = Some result"
  shows "iterate_transition wheel n s = Some result"
  using assms
proof (induction n arbitrary: s result)
  case 0
  then show ?case by simp
next
  case (Suc n)
  then show ?case
    by (auto split: option.splits dest!: transition_take)
qed

lemma coprime_rank_less:
  assumes "r < m" and "coprime r m"
  shows "coprime_rank m r < euler_phi m"
proof -
  from assms(1) have "[0..<m] = [0..<r] @ r # [Suc r..<m]"
    by (metis less_imp_le_nat upt_add_eq_append upt_conv_Cons zero_le le_add_diff_inverse)
  then have "filter (\<lambda>x. coprime x m) [0..<m] =
      filter (\<lambda>x. coprime x m) [0..<r] @ r # filter (\<lambda>x. coprime x m) [Suc r..<m]"
    using assms(2) by simp
  then show ?thesis
    by (simp add: coprime_rank_def euler_phi_def)
qed

lemma wheel30_cycle:
  "iterate_transition wheel30 (euler_phi 30) (1, 0) =
     Some (zip (filter (\<lambda>r. coprime r 30) [0..<30]) [0..<euler_phi 30], (1 + 30, 0))"
  by code_simp

lemma wheel210_cycle:
  "iterate_transition wheel210 (euler_phi 210) (1, 0) =
     Some (zip (filter (\<lambda>r. coprime r 210) [0..<210]) [0..<euler_phi 210], (1 + 210, 0))"
proof -
  have "iterate_transition (take 48 wheel210) (euler_phi 210) (1, 0) =
     Some (zip (filter (\<lambda>r. coprime r 210) [0..<210]) [0..<euler_phi 210], (1 + 210, 0))"
    by code_simp
  then show ?thesis
    by (rule iterate_transition_take)
qed

lemma wheel30_cycle_bits:
  "map (\<lambda>i. unsetBit (wheel30 ! i)) [0..<euler_phi 30] = [BIT0, BIT4, BIT3, BIT7, BIT6, BIT2, BIT1, BIT5]"
  by code_simp

lemma wheel_cycle_indices:
  "list_all (\<lambda>(r, i). wheelIndex (wheel30Init ! r) = i)
     (zip (filter (\<lambda>r. coprime r 30) [0..<30]) [0..<euler_phi 30])"
  "list_all (\<lambda>(r, i). wheelIndex (wheel210Init ! r) = i)
     (zip (filter (\<lambda>r. coprime r 210) [0..<210]) [0..<euler_phi 210])"
  by code_simp+

lemma phi_values: "euler_phi 30 = 8" "euler_phi 210 = 48"
  by code_simp+

text \<open>
  Claim C3, as the code has it. A state is a factor together with a wheel index; the state
  with wheel index 0 has the factor 1 and clears bit 0. Starting from it, one full cycle of
  the wheel takes \<open>\<phi>(M)\<close> transitions, 8 for the modulus 30 and 48 for the modulus 210, and
  not \<open>\<phi>(M) / 2\<close>. The states visited have the wheel indices \<open>0, ..., \<phi>(M) - 1\<close> in this
  order, their factors are the residues coprime to \<open>M\<close> in increasing order, each once, and
  the state reached in the end has wheel index 0 again and the factor \<open>1 + M\<close>. In the
  WheelInit table every residue coprime to \<open>M\<close> carries a wheel index in
  \<open>0..\<phi>(M) - 1\<close>, which is the wheel index of the state that visits the residue. For the
  modulus 30 the eight states clear the eight bits of a byte, each once.
\<close>

theorem wheel_cycle:
  "euler_phi 30 = 8 \<and> euler_phi 210 = 48 \<and>
   unsetBit (wheel30 ! 0) = BIT0 \<and> unsetBit (wheel210 ! 0) = BIT0 \<and>
   iterate_transition wheel30 (euler_phi 30) (1, 0) =
     Some (zip (filter (\<lambda>r. coprime r 30) [0..<30]) [0..<euler_phi 30], (1 + 30, 0)) \<and>
   iterate_transition wheel210 (euler_phi 210) (1, 0) =
     Some (zip (filter (\<lambda>r. coprime r 210) [0..<210]) [0..<euler_phi 210], (1 + 210, 0)) \<and>
   (\<forall>r<30. coprime r 30 \<longrightarrow> wheelIndex (wheel30Init ! r) < euler_phi 30) \<and>
   (\<forall>r<210. coprime r 210 \<longrightarrow> wheelIndex (wheel210Init ! r) < euler_phi 210) \<and>
   list_all (\<lambda>(r, i). wheelIndex (wheel30Init ! r) = i)
     (zip (filter (\<lambda>r. coprime r 30) [0..<30]) [0..<euler_phi 30]) \<and>
   list_all (\<lambda>(r, i). wheelIndex (wheel210Init ! r) = i)
     (zip (filter (\<lambda>r. coprime r 210) [0..<210]) [0..<euler_phi 210]) \<and>
   map (\<lambda>i. unsetBit (wheel30 ! i)) [0..<euler_phi 30] =
     [BIT0, BIT4, BIT3, BIT7, BIT6, BIT2, BIT1, BIT5]"
proof -
  note e30 = wheelInit_entry [OF wheel30Init_check, unfolded length_wheel30Init]
  note e210 = wheelInit_entry [OF wheel210Init_check, unfolded length_wheel210Init]
  have "wheelIndex (wheel30Init ! r) < euler_phi 30" if "r < 30" "coprime r 30" for r
    using e30 [OF that(1)] that coprime_rank_less [of r 30] by simp
  then have i30: "\<forall>r<30. coprime r 30 \<longrightarrow> wheelIndex (wheel30Init ! r) < euler_phi 30"
    by blast
  have "wheelIndex (wheel210Init ! r) < euler_phi 210" if "r < 210" "coprime r 210" for r
    using e210 [OF that(1)] that coprime_rank_less [of r 210] by simp
  then have i210: "\<forall>r<210. coprime r 210 \<longrightarrow> wheelIndex (wheel210Init ! r) < euler_phi 210"
    by blast
  have b30: "unsetBit (wheel30 ! 0) = BIT0"
    by (simp add: wheel30_def)
  have b210: "unsetBit (wheel210 ! 0) = BIT0"
    by (simp add: wheel210_def)
  show ?thesis
    by (intro conjI)
      (rule phi_values b30 b210 wheel30_cycle wheel210_cycle i30 i210 wheel_cycle_indices
        wheel30_cycle_bits)+
qed

theorem wheel_cycle_witness:
  "(29::nat) < 30 \<and> coprime (29::nat) 30 \<and> wheelIndex (wheel30Init ! 29) < euler_phi 30 \<and>
   wheelIndex (wheel30Init ! 29) = 7"
proof -
  have 1: "(29::nat) < 30" and 2: "coprime (29::nat) 30"
    by code_simp+
  with wheel_cycle have "wheelIndex (wheel30Init ! 29) < euler_phi 30"
    by blast
  moreover have "wheelIndex (wheel30Init ! 29) = 7"
    by (simp add: wheel30Init_def)
  ultimately show ?thesis
    using 1 2 by simp
qed

text \<open>
  The claim as stated fails for the modulus 30: after \<open>\<phi>(30) / 2 = 4\<close> transitions the
  wheel index is 4 and not 0, and the residue 29, coprime to 30, carries the wheel index 7,
  which is above \<open>\<phi>(30) / 2 - 1 = 3\<close>.
\<close>

theorem wheel_cycle_half_counterexample:
  "euler_phi 30 div 2 = 4 \<and>
   iterate_transition wheel30 (euler_phi 30 div 2) (1, 0) =
     Some ([(1, 0), (7, 1), (11, 2), (13, 3)], (17, 4)) \<and>
   coprime (29::nat) 30 \<and> wheelIndex (wheel30Init ! 29) = 7 \<and>
   \<not> 7 \<le> euler_phi 30 div 2 - 1"
  by code_simp

subsection \<open>The constructor of PrimeNumberGenerator\<close>



lemma le_pow2_ceil_log2: "x \<le> 2 ^ ceil_log2 x"
proof (induction x rule: ceil_log2.induct)
  case (1 x)
  show ?case
  proof (cases "x \<le> 1")
    case True
    then show ?thesis by (simp add: ceil_log2.simps [of x])
  next
    case False
    with 1 have "(x + 1) div 2 \<le> 2 ^ ceil_log2 ((x + 1) div 2)" by simp
    then have "x \<le> 2 * 2 ^ ceil_log2 ((x + 1) div 2)" by arith
    with False show ?thesis by (simp add: ceil_log2.simps [of x])
  qed
qed

lemma ceil_log2_least: "x \<le> 2 ^ k \<Longrightarrow> ceil_log2 x \<le> k"
proof (induction x arbitrary: k rule: ceil_log2.induct)
  case (1 x)
  show ?case
  proof (cases "x \<le> 1")
    case True
    then show ?thesis by (simp add: ceil_log2.simps [of x])
  next
    case False
    with "1.prems" obtain j where k: "k = Suc j"
      by (cases k) auto
    with "1.prems" have "(x + 1) div 2 \<le> 2 ^ j" by simp
    with 1 False have "ceil_log2 ((x + 1) div 2) \<le> j" by simp
    with False k show ?thesis by (simp add: ceil_log2.simps [of x])
  qed
qed

lemma ceil_log2_pow2: "ceil_log2 (2 ^ k) = k"
proof (rule antisym)
  show "ceil_log2 (2 ^ k) \<le> k"
    by (rule ceil_log2_least) simp
  have "(2::nat) ^ k \<le> 2 ^ ceil_log2 (2 ^ k)"
    by (rule le_pow2_ceil_log2)
  then show "k \<le> ceil_log2 (2 ^ k)"
    by simp
qed

lemma isPowerOf2_iff: "isPowerOf2 x \<longleftrightarrow> (\<exists>k. x = 2 ^ k)"
  by (auto simp add: isPowerOf2_def ceil_log2_pow2)








end
